theory Spec2Isabelle
  imports Main "HOL-Library.Word"
begin

unbundle bit_operations_syntax

section \<open>Bytes, errors and byte streams\<close>

type_synonym byte = "8 word"

text \<open>
  Go's \<open>error\<close> values that occur in the SOCKS5 engine. The four \<open>Unsupported...\<close>
  types and \<open>ReplyError\<close> are byte-valued error types of the engine; the \<open>Err...\<close>
  and \<open>err...\<close> constructors are its \<open>errors.New\<close> variables.
  \<open>EOF\<close> and \<open>ErrUnexpectedEOF\<close> are the two errors of package \<open>io\<close>,
  \<open>ErrUnsupported\<close> is \<open>errors.ErrUnsupported\<close>, \<open>IOFailure\<close> stands for any other
  error a transport returns (a reset connection, an expired deadline),
  \<open>ErrAcceptRequiresTCPConn\<close> is the error of package \<open>zerocopy\<close> the engine returns,
  \<open>ErrUnsupportedAddressType\<close>, \<open>ErrInvalidDomainLength\<close> and \<open>ErrBufferTooSmall\<close>
  are the failures of the address codec, \<open>ErrClosed\<close> is \<open>net.ErrClosed\<close>,
  and \<open>panic\<close> is a Go panic with its message. A Go \<open>error\<close> result is an
  \<open>error option\<close>, \<open>nil\<close> being \<open>None\<close>.
\<close>

datatype error =
    EOF
  | ErrUnexpectedEOF
  | ErrUnsupported
  | IOFailure nat
  | UnsupportedVersionError byte
  | UnsupportedAuthMethodError byte
  | UnsupportedCommandError byte
  | ReplyError byte
  | UnsupportedUsernamePasswordAuthVersionError byte
  | ErrUsernameLengthOutOfRange
  | ErrPasswordLengthOutOfRange
  | ErrNoAcceptableAuthMethod
  | ErrIncorrectUsernamePassword
  | ErrUDPAssociateDone
  | errZeroNMETHODS
  | errZeroULEN
  | errZeroPLEN
  | ErrAcceptRequiresTCPConn
  | ErrUnsupportedAddressType byte
  | ErrInvalidDomainLength
  | ErrBufferTooSmall
  | ErrClosed
  | panic string

text \<open>An IP address (\<open>netip.Addr\<close>) and an address with a port (\<open>netip.AddrPort\<close>).\<close>

datatype netip_Addr = IPv4 byte byte byte byte | IPv6 "byte list"

datatype AddrPort = AddrPort netip_Addr "16 word"

text \<open>
  The byte stream \<open>rw\<close> the engine talks to (an \<open>io.ReadWriter\<close>), as the engine
  sees it: \<open>input\<close> holds the bytes the peer sends before the stream ends, \<open>rd_err\<close>
  is what \<open>Read\<close> returns once they are used up (\<open>EOF\<close> after an orderly close),
  \<open>wr_err\<close> is the error of a failing \<open>Write\<close> (\<open>None\<close>: writes succeed),
  \<open>sent\<close> collects the bytes written, \<open>reads\<close> counts the calls of \<open>Read\<close>,
  \<open>writes\<close> lists the arguments of the calls of \<open>Write\<close>, and \<open>local_addr\<close> is
  the local endpoint when the stream is a \<open>*net.TCPConn\<close> (\<open>None\<close> for any other
  stream type).
\<close>

record conn =
  input :: "byte list"
  rd_err :: error
  wr_err :: "error option"
  sent :: "byte list"
  reads :: nat
  writes :: "byte list list"
  local_addr :: "AddrPort option"

text \<open>
  \<open>Read(p)\<close> with \<open>len(p) = k\<close>: the bytes copied into \<open>p\<close>, and the error.
  A read takes as many of the \<open>k\<close> bytes as the input still holds; at the end of the
  input it returns \<open>rd_err\<close>. A read into an empty slice returns at once.
\<close>

definition conn_Read :: "conn \<Rightarrow> nat \<Rightarrow> (byte list \<times> error option) \<times> conn" where
  "conn_Read c k =
     (if k = 0 then (([], None), c\<lparr>reads := Suc (reads c)\<rparr>)
      else if input c = [] then (([], Some (rd_err c)), c\<lparr>reads := Suc (reads c)\<rparr>)
      else ((take k (input c), None),
            c\<lparr>input := drop k (input c), reads := Suc (reads c)\<rparr>))"

definition conn_Write :: "conn \<Rightarrow> byte list \<Rightarrow> error option \<times> conn" where
  "conn_Write c p =
     (case wr_err c of
        Some e \<Rightarrow> (Some e, c\<lparr>writes := writes c @ [p]\<rparr>)
      | None \<Rightarrow> (None, c\<lparr>sent := sent c @ p, writes := writes c @ [p]\<rparr>))"

section \<open>The prefixed reader\<close>

text \<open>
  The readers of the program (\<open>io.Reader\<close>): the stream itself, or a
  \<open>prefixedReader\<close> holding its fields \<open>prefix\<close> and \<open>r\<close>, the underlying reader.
\<close>

datatype reader =
    ConnReader conn
  | prefixedReader "byte list" reader

text \<open>\<open>newPrefixedReader\<close>\<close>

definition newPrefixedReader :: "byte list \<Rightarrow> reader \<Rightarrow> reader" where
  "newPrefixedReader p rd = prefixedReader p rd"

text \<open>
  \<open>Read\<close>, dispatched on the reader. For a prefixed reader with a non-empty prefix,
  \<open>n = copy(p, r.prefix)\<close> is the smaller of the two lengths, the prefix loses its first
  \<open>n\<close> bytes and the result is \<open>(n, nil)\<close>; with an empty prefix the call goes to the
  underlying reader.
\<close>

fun Read :: "reader \<Rightarrow> nat \<Rightarrow> (byte list \<times> error option) \<times> reader" where
  "Read (ConnReader c) k = (case conn_Read c k of (res, c') \<Rightarrow> (res, ConnReader c'))"
| "Read (prefixedReader pre rd) k =
     (if length pre > 0 then
        (let n = min k (length pre)
         in ((take n pre, None), prefixedReader (drop n pre) rd))
      else (case Read rd k of (res, rd') \<Rightarrow> (res, prefixedReader pre rd')))"

text \<open>The stream at the bottom of a reader.\<close>

fun the_conn :: "reader \<Rightarrow> conn" where
  "the_conn (ConnReader c) = c"
| "the_conn (prefixedReader pre rd) = the_conn rd"

lemma Read_progress:
  "Read rd k = ((data, None), rd') \<Longrightarrow> 0 < k \<Longrightarrow> data \<noteq> []"
proof (induction rd arbitrary: rd')
  case (ConnReader c)
  then show ?case
    by (auto simp: conn_Read_def split: if_splits)
next
  case (prefixedReader pre rd)
  then show ?case
    by (auto simp: Let_def min_def split: if_splits prod.splits)
qed

text \<open>
  \<open>io.ReadFull(r, buf)\<close> with \<open>len(buf) = len\<close>, that is \<open>io.ReadAtLeast\<close> with
  \<open>min = len(buf)\<close>: the loop \<open>for n < min && err == nil\<close> reads into \<open>buf[n:]\<close>, and
  afterwards the error is dropped when enough was read, and \<open>EOF\<close> after some bytes
  becomes \<open>ErrUnexpectedEOF\<close>.
\<close>

function ReadFull_loop ::
  "reader \<Rightarrow> nat \<Rightarrow> byte list \<Rightarrow> error option \<Rightarrow> (byte list \<times> error option) \<times> reader" where
  "ReadFull_loop rd len got err =
     (if length got < len \<and> err = None then
        (case Read rd (len - length got) of
           ((data, err'), rd') \<Rightarrow> ReadFull_loop rd' len (got @ data) err')
      else ((got, err), rd))"
  by pat_completeness auto
termination
proof (relation "measure (\<lambda>(rd, len, got, err). if err = None then Suc (len - length got) else 0)",
    goal_cases)
  case 1
  show ?case by simp
next
  case (2 rd len got err x1 rd' data err')
  then have rd: "Read rd (len - length got) = ((data, err'), rd')" and lt: "length got < len"
    and e: "err = None"
    by simp_all
  show ?case
  proof (cases err')
    case None
    with rd lt have "data \<noteq> []"
      using Read_progress [of rd "len - length got" data rd'] by simp
    with None lt e show ?thesis by (cases data) auto
  next
    case (Some a)
    with e show ?thesis by simp
  qed
qed

definition ReadFull :: "reader \<Rightarrow> nat \<Rightarrow> (byte list \<times> error option) \<times> reader" where
  "ReadFull rd len =
     (case ReadFull_loop rd len [] None of
        ((got, err), rd') \<Rightarrow>
          ((got,
            if length got \<ge> len then None
            else if length got > 0 \<and> err = Some EOF then Some ErrUnexpectedEOF
            else err), rd'))"

declare ReadFull_loop.simps [simp del]

section \<open>Slices of the scratch buffer\<close>

text \<open>
  The scratch buffer \<open>b\<close> is a byte list. \<open>slice b lo hi\<close> is the contents of
  \<open>b[lo:hi]\<close>; \<open>copy_into b lo data\<close> is \<open>b\<close> after \<open>data\<close> was stored at
  \<open>b[lo:lo+len(data)]\<close>, which is how a read into a sub-slice or an append to a
  sub-slice with spare capacity changes \<open>b\<close>. Every function checks the
  length of \<open>b\<close> first (and panics), so the indices below are in range. Each function
  fills the part of \<open>b\<close> it reads from the stream before it reads it, and its caller
  takes nothing from \<open>b\<close> afterwards, so the functions below take \<open>b\<close> and do not
  return it.
\<close>

definition slice :: "byte list \<Rightarrow> nat \<Rightarrow> nat \<Rightarrow> byte list" where
  "slice b lo hi = take (hi - lo) (drop lo b)"

definition copy_into :: "byte list \<Rightarrow> nat \<Rightarrow> byte list \<Rightarrow> byte list" where
  "copy_into b lo data = take lo b @ data @ drop (lo + length data) b"

text \<open>\<open>bytes.IndexByte\<close>: the index of the first \<open>c\<close> in \<open>b\<close>, or \<open>-1\<close>.\<close>

fun IndexByte :: "byte list \<Rightarrow> byte \<Rightarrow> int" where
  "IndexByte [] c = - 1"
| "IndexByte (x # xs) c =
     (if x = c then 0
      else (let i = IndexByte xs c in if i = - 1 then - 1 else i + 1))"

section \<open>SOCKS5 constants\<close>

abbreviation Version :: byte where "Version \<equiv> 5"

abbreviation MethodNoAuthenticationRequired :: byte where "MethodNoAuthenticationRequired \<equiv> 0"
abbreviation MethodGSSAPI :: byte where "MethodGSSAPI \<equiv> 1"
abbreviation MethodUsernamePassword :: byte where "MethodUsernamePassword \<equiv> 2"
abbreviation MethodNoAcceptable :: byte where "MethodNoAcceptable \<equiv> 0xFF"

abbreviation CmdConnect :: byte where "CmdConnect \<equiv> 1"
abbreviation CmdBind :: byte where "CmdBind \<equiv> 2"
abbreviation CmdUDPAssociate :: byte where "CmdUDPAssociate \<equiv> 3"

abbreviation ReplySucceeded :: byte where "ReplySucceeded \<equiv> 0"
abbreviation ReplyCommandNotSupported :: byte where "ReplyCommandNotSupported \<equiv> 7"

abbreviation UsernamePasswordAuthVersion :: byte where "UsernamePasswordAuthVersion \<equiv> 1"

section \<open>Error kinds\<close>

text \<open>
  The \<open>Is\<close> method of an error's type, \<open>None\<close> for a type that has none: the four
  \<open>Unsupported...\<close> types define \<open>Is(target)\<close> as \<open>target == errors.ErrUnsupported\<close>;
  \<open>ReplyError\<close> and the \<open>errors.New\<close> values define no \<open>Is\<close>.
\<close>

fun Is :: "error \<Rightarrow> (error \<Rightarrow> bool) option" where
  "Is (UnsupportedVersionError v) = Some (\<lambda>target. target = ErrUnsupported)"
| "Is (UnsupportedAuthMethodError m) = Some (\<lambda>target. target = ErrUnsupported)"
| "Is (UnsupportedCommandError c) = Some (\<lambda>target. target = ErrUnsupported)"
| "Is (UnsupportedUsernamePasswordAuthVersionError v) = Some (\<lambda>target. target = ErrUnsupported)"
| "Is _ = None"

text \<open>
  \<open>errors.Is(err, target)\<close> for errors that wrap nothing: \<open>err\<close> equals \<open>target\<close>, or
  its \<open>Is\<close> method accepts \<open>target\<close>.
\<close>

definition errors_Is :: "error \<Rightarrow> error \<Rightarrow> bool" where
  "errors_Is err target =
     (err = target \<or> (case Is err of Some f \<Rightarrow> f target | None \<Rightarrow> False))"

section \<open>Method selection\<close>

text \<open>
  The end of \<open>serverHandleMethodSelection\<close>, after the \<open>switch\<close> has set
  \<open>methodIndex\<close>: the no-acceptable-method reply (whose write error is dropped), or the
  method selection message (whose write error is the result).
\<close>

definition selectionReply :: "conn \<Rightarrow> byte list \<Rightarrow> int \<Rightarrow> byte \<Rightarrow> error option \<times> conn" where
  "selectionReply rw b methodIndex method =
     (if methodIndex = - 1 then
        (let b = b[1 := MethodNoAcceptable]
         in (case conn_Write rw (slice b 0 2) of
               (_, rw) \<Rightarrow> (Some ErrNoAcceptableAuthMethod, rw)))
      else
        (let b = b[1 := method]
         in conn_Write rw (slice b 0 2)))"

definition serverHandleMethodSelection :: "conn \<Rightarrow> byte list \<Rightarrow> byte \<Rightarrow> error option \<times> conn" where
  "serverHandleMethodSelection rw b method =
     (if length b < 1 + 1 + 255 then
        (Some (panic ''serverHandleMethodSelection: buffer too small''), rw)
      else
        (case ReadFull (ConnReader rw) 3 of
           ((d, Some e), rd) \<Rightarrow> (Some e, the_conn rd)
         | ((d, None), rd) \<Rightarrow>
             (let rw = the_conn rd; b = copy_into b 0 d
              in if b ! 0 \<noteq> Version then (Some (UnsupportedVersionError (b ! 0)), rw)
                 else
                   (let nmethods = unat (b ! 1)
                    in if nmethods = 0 then (Some errZeroNMETHODS, rw)
                       else if nmethods = 1 then
                         selectionReply rw b (if b ! 2 \<noteq> method then - 1 else 0) method
                       else
                         (case ReadFull (ConnReader rw) (3 + nmethods - 1 - 3) of
                            ((d, Some e), rd) \<Rightarrow> (Some e, the_conn rd)
                          | ((d, None), rd) \<Rightarrow>
                              (let b = copy_into b 3 d
                               in selectionReply (the_conn rd) b
                                    (IndexByte (slice b 2 (2 + nmethods)) method) method))))))"

section \<open>Username/password authentication\<close>

record UserInfo =
  Username :: "byte list"
  Password :: "byte list"

definition Validate :: "UserInfo \<Rightarrow> error option" where
  "Validate u =
     (if length (Username u) = 0 \<or> length (Username u) > 255 then Some ErrUsernameLengthOutOfRange
      else if length (Password u) = 0 \<or> length (Password u) > 255 then Some ErrPasswordLengthOutOfRange
      else None)"

definition AuthMsgLength :: "UserInfo \<Rightarrow> nat" where
  "AuthMsgLength u = 1 + 1 + length (Username u) + 1 + length (Password u)"

text \<open>\<open>byte(len(...))\<close> keeps the low eight bits of the length, as \<open>of_nat\<close> does.\<close>

definition AppendAuthMsg :: "UserInfo \<Rightarrow> byte list \<Rightarrow> byte list" where
  "AppendAuthMsg u b =
     (let b = b @ [UsernamePasswordAuthVersion, of_nat (length (Username u))];
          b = b @ Username u;
          b = b @ [of_nat (length (Password u))];
          b = b @ Password u
      in b)"

text \<open>
  A lookup in a Go map gives the zero value and \<open>ok = false\<close> for a missing key.
\<close>

definition lookupUser :: "(byte list \<rightharpoonup> UserInfo) \<Rightarrow> byte list \<Rightarrow> UserInfo \<times> bool" where
  "lookupUser m k =
     (case m k of
        Some ui \<Rightarrow> (ui, True)
      | None \<Rightarrow> (\<lparr>Username = [], Password = []\<rparr>, False))"

definition serverHandleUsernamePassword ::
  "conn \<Rightarrow> byte list \<Rightarrow> (byte list \<rightharpoonup> UserInfo) \<Rightarrow> (byte list \<times> error option) \<times> conn" where
  "serverHandleUsernamePassword rw b userInfoByUsername =
     (if length b < 1 + 1 + 255 + 1 then
        (([], Some (panic ''serverHandleUsernamePassword: buffer too small'')), rw)
      else
        (case ReadFull (ConnReader rw) 4 of
           ((d, Some e), rd) \<Rightarrow> (([], Some e), the_conn rd)
         | ((d, None), rd) \<Rightarrow>
             (let rw = the_conn rd; b = copy_into b 0 d
              in if b ! 0 \<noteq> UsernamePasswordAuthVersion then
                   (([], Some (UnsupportedUsernamePasswordAuthVersionError (b ! 0))), rw)
                 else
                   (let ulen = unat (b ! 1)
                    in if ulen = 0 then (([], Some errZeroULEN), rw)
                       else
                         (case (if ulen > 1 then ReadFull (ConnReader rw) (4 + ulen - 1 - 4)
                                else (([], None), ConnReader rw)) of
                            ((d, Some e), rd) \<Rightarrow> (([], Some e), the_conn rd)
                          | ((d, None), rd) \<Rightarrow>
                              (let rw = the_conn rd; b = copy_into b 4 d;
                                   plenIndex = 2 + ulen;
                                   uname = slice b 2 plenIndex;
                                   (userInfo, ok) = lookupUser userInfoByUsername uname;
                                   plen = unat (b ! plenIndex)
                               in if plen = 0 then (([], Some errZeroPLEN), rw)
                                  else
                                    (case ReadFull (ConnReader rw) (2 + plen - 2) of
                                       ((d, Some e), rd) \<Rightarrow> (([], Some e), the_conn rd)
                                     | ((d, None), rd) \<Rightarrow>
                                         (let rw = the_conn rd; b = copy_into b 2 d;
                                              passwd = slice b 2 (2 + plen);
                                              status = (if \<not> ok \<or> passwd \<noteq> Password userInfo
                                                        then 1 else 0 :: byte);
                                              b = b[1 := status];
                                              (err, rw) = conn_Write rw (slice b 0 2)
                                          in if status \<noteq> 0 then
                                               (([], Some ErrIncorrectUsernamePassword), rw)
                                             else ((Username userInfo, err), rw)))))))))"

section \<open>The address codec\<close>

text \<open>
  Modelled from the spec: the host-level address \<open>conn.Addr\<close>, whose source file is
  missing from the sources. It can be made from any SOCKS address and turned back into
  one: its zero value, an IP and port, or a domain and port.
\<close>

datatype Addr =
    AddrZero
  | AddrIPPort netip_Addr "16 word"
  | AddrDomainPort "byte list" "16 word"

abbreviation AtypIPv4 :: byte where "AtypIPv4 \<equiv> 1"
abbreviation AtypDomainName :: byte where "AtypDomainName \<equiv> 3"
abbreviation AtypIPv6 :: byte where "AtypIPv6 \<equiv> 4"

text \<open>
  Modelled from the spec: the constants \<open>IPv4AddrLen\<close>, \<open>IPv6AddrLen\<close>,
  \<open>MaxAddrLen\<close> and \<open>IPv4UnspecifiedAddr\<close> of the address codec, whose source file is
  not part of the sources at hand. The layout is \<open>ATYP(1) | ADDR | PORT(2)\<close>, the longest
  address is the domain form with a 255-byte host, and the placeholder is the IPv4 address
  \<open>0.0.0.0:0\<close>.
\<close>

abbreviation IPv4AddrLen :: nat where "IPv4AddrLen \<equiv> 1 + 4 + 2"
abbreviation IPv6AddrLen :: nat where "IPv6AddrLen \<equiv> 1 + 16 + 2"
abbreviation MaxAddrLen :: nat where "MaxAddrLen \<equiv> 1 + 1 + 255 + 2"

definition IPv4UnspecifiedAddr :: "byte list" where
  "IPv4UnspecifiedAddr = [AtypIPv4, 0, 0, 0, 0, 0, 0]"

text \<open>
  Modelled from the spec: a 16-bit port and its two bytes on the wire, \<open>PORT(2,
  big-endian)\<close>; the codec's source file is missing from the sources.
\<close>

definition port_bytes :: "16 word \<Rightarrow> byte list" where
  "port_bytes p = [ucast (drop_bit 8 p), ucast p]"

definition bytes_port :: "byte \<Rightarrow> byte \<Rightarrow> 16 word" where
  "bytes_port hi lo = push_bit 8 (ucast hi) OR ucast lo"

text \<open>
  Modelled from the spec: \<open>AppendAddrFromAddrPort\<close>, missing from the sources. It
  appends the SOCKS address of an IP and port: \<open>ATYP\<close> (1 for IPv4, 4 for IPv6), the
  address bytes, and the port in big-endian order.
\<close>

fun AppendAddrFromAddrPort :: "byte list \<Rightarrow> AddrPort \<Rightarrow> byte list" where
  "AppendAddrFromAddrPort b (AddrPort (IPv4 a0 a1 a2 a3) port) =
     b @ [AtypIPv4, a0, a1, a2, a3] @ port_bytes port"
| "AppendAddrFromAddrPort b (AddrPort (IPv6 a) port) =
     b @ [AtypIPv6] @ a @ port_bytes port"

text \<open>
  Modelled from the spec: \<open>AppendFromReader\<close>, missing from the sources. It reads the
  two lead bytes (\<open>ATYP\<close> and the first byte of the address body), then the fewest bytes
  that complete the address, and appends all of them to \<open>b\<close>. An unknown \<open>ATYP\<close> and a
  domain length of 0 are rejected; a reader that ends early gives the error of the read.
\<close>

definition AppendFromReader :: "byte list \<Rightarrow> reader \<Rightarrow> (error + byte list) \<times> reader" where
  "AppendFromReader b rd =
     (case ReadFull rd 2 of
        ((d, Some e), rd) \<Rightarrow> (Inl e, rd)
      | ((d, None), rd) \<Rightarrow>
          (let atyp = d ! 0
           in if atyp \<noteq> AtypIPv4 \<and> atyp \<noteq> AtypDomainName \<and> atyp \<noteq> AtypIPv6 then
                (Inl (ErrUnsupportedAddressType atyp), rd)
              else if atyp = AtypDomainName \<and> d ! 1 = 0 then (Inl ErrInvalidDomainLength, rd)
              else
                (let more = (if atyp = AtypIPv4 then IPv4AddrLen - 2
                             else if atyp = AtypIPv6 then IPv6AddrLen - 2
                             else unat (d ! 1) + 2)
                 in (case ReadFull rd more of
                       ((d', Some e), rd) \<Rightarrow> (Inl e, rd)
                     | ((d', None), rd) \<Rightarrow> (Inr (b @ d @ d'), rd)))))"

text \<open>
  Modelled from the spec: \<open>ConnAddrFromSlice\<close>, missing from the sources. It parses a
  SOCKS address at the start of \<open>b\<close> and returns the address with the number of bytes
  used; it rejects an unknown \<open>ATYP\<close>, a domain of length 0 and a slice too short for
  the fields it declares.
\<close>

definition ConnAddrFromSlice :: "byte list \<Rightarrow> error + (Addr \<times> nat)" where
  "ConnAddrFromSlice b =
     (if length b < 2 then Inl ErrBufferTooSmall
      else if b ! 0 = AtypIPv4 then
        (if length b < IPv4AddrLen then Inl ErrBufferTooSmall
         else Inr (AddrIPPort (IPv4 (b ! 1) (b ! 2) (b ! 3) (b ! 4)) (bytes_port (b ! 5) (b ! 6)),
                   IPv4AddrLen))
      else if b ! 0 = AtypIPv6 then
        (if length b < IPv6AddrLen then Inl ErrBufferTooSmall
         else Inr (AddrIPPort (IPv6 (slice b 1 17)) (bytes_port (b ! 17) (b ! 18)), IPv6AddrLen))
      else if b ! 0 = AtypDomainName then
        (let n = unat (b ! 1)
         in if n = 0 then Inl ErrInvalidDomainLength
            else if length b < 1 + 1 + n + 2 then Inl ErrBufferTooSmall
            else Inr (AddrDomainPort (slice b 2 (2 + n)) (bytes_port (b ! (2 + n)) (b ! (3 + n))),
                      1 + 1 + n + 2))
      else Inl (ErrUnsupportedAddressType (b ! 0)))"

text \<open>
  The SOCKS address of a host-level address on the wire, in the layout of the spec, as a
  client writes it into a request: used to state what the server receives. The zero value
  stands for the placeholder \<open>0.0.0.0:0\<close>.
\<close>

fun wire_addr :: "Addr \<Rightarrow> byte list" where
  "wire_addr AddrZero = IPv4UnspecifiedAddr"
| "wire_addr (AddrIPPort (IPv4 a0 a1 a2 a3) port) = [AtypIPv4, a0, a1, a2, a3] @ port_bytes port"
| "wire_addr (AddrIPPort (IPv6 a) port) = [AtypIPv6] @ a @ port_bytes port"
| "wire_addr (AddrDomainPort host port) =
     [AtypDomainName, of_nat (length host)] @ host @ port_bytes port"

text \<open>The addresses with a well-formed wire form: 16 bytes of IPv6, a host of 1 to 255 bytes.\<close>

fun valid_addr :: "Addr \<Rightarrow> bool" where
  "valid_addr AddrZero = False"
| "valid_addr (AddrIPPort (IPv4 a0 a1 a2 a3) port) = True"
| "valid_addr (AddrIPPort (IPv6 a) port) = (length a = 16)"
| "valid_addr (AddrDomainPort host port) = (1 \<le> length host \<and> length host \<le> 255)"

section \<open>Requests\<close>

text \<open>\<open>replyWithStatus\<close>: the ten-byte reply with the given \<open>REP\<close> and the placeholder address.\<close>

definition replyWithStatus :: "conn \<Rightarrow> byte list \<Rightarrow> byte \<Rightarrow> error option \<times> conn" where
  "replyWithStatus w b status =
     (let replyLen = 3 + IPv4AddrLen;
          reply = slice b 0 replyLen;
          reply = reply[0 := Version];
          reply = reply[1 := status];
          reply = reply[2 := 0];
          reply = copy_into reply 3 IPv4UnspecifiedAddr
      in conn_Write w reply)"

text \<open>
  \<open>serverHandleRequest\<close>. The address is appended to \<open>b[3:3]\<close>, that is stored at
  \<open>b[3:]\<close>, read through a prefixed reader over the two bytes \<open>b[3:5]\<close> already taken
  from the stream; the first two bytes stored are those two bytes themselves. The type
  assertion \<open>rw.(*net.TCPConn)\<close> succeeds when the stream has a local endpoint. The
  result is the address and the error, with the stream.
\<close>

definition serverHandleRequest ::
  "conn \<Rightarrow> byte list \<Rightarrow> bool \<Rightarrow> bool \<Rightarrow> (Addr \<times> error option) \<times> conn" where
  "serverHandleRequest rw b enableTCP enableUDP =
     (if length b < 3 + MaxAddrLen then
        ((AddrZero, Some (panic ''serverHandleRequest: buffer too small'')), rw)
      else
        (case ReadFull (ConnReader rw) 5 of
           ((d, Some e), rd) \<Rightarrow> ((AddrZero, Some e), the_conn rd)
         | ((d, None), rd) \<Rightarrow>
             (let rw = the_conn rd; b = copy_into b 0 d
              in if b ! 0 \<noteq> Version then ((AddrZero, Some (UnsupportedVersionError (b ! 0))), rw)
                 else
                   (case AppendFromReader (slice b 3 3)
                           (newPrefixedReader (slice b 3 5) (ConnReader rw)) of
                      (Inl e, rd) \<Rightarrow> ((AddrZero, Some e), the_conn rd)
                    | (Inr sa, rd) \<Rightarrow>
                        (let rw = the_conn rd; b = copy_into b 3 sa
                         in (case ConnAddrFromSlice sa of
                               Inl e \<Rightarrow> ((AddrZero, Some e), rw)
                             | Inr (addr, n) \<Rightarrow>
                                 (let cmd = b ! 1
                                  in if cmd = CmdConnect \<and> enableTCP then
                                       (case replyWithStatus rw b ReplySucceeded of
                                          (err, rw) \<Rightarrow> ((addr, err), rw))
                                     else if cmd = CmdUDPAssociate \<and> enableUDP then
                                       (case local_addr rw of
                                          None \<Rightarrow> ((addr, Some ErrAcceptRequiresTCPConn), rw)
                                        | Some localAddrPort \<Rightarrow>
                                            (let b = b[1 := ReplySucceeded];
                                                 reply = AppendAddrFromAddrPort (slice b 0 3) localAddrPort
                                             in (case conn_Write rw reply of
                                                   (Some e, rw) \<Rightarrow> ((addr, Some e), rw)
                                                 | (None, rw) \<Rightarrow>
                                                     (case conn_Read rw 1 of
                                                        ((d, err), rw) \<Rightarrow>
                                                          if err \<noteq> None \<and> err \<noteq> Some EOF then
                                                            ((addr, err), rw)
                                                          else ((addr, Some ErrUDPAssociateDone), rw)))))
                                     else
                                       (case replyWithStatus rw b ReplyCommandNotSupported of
                                          (_, rw) \<Rightarrow> ((addr, Some (UnsupportedCommandError cmd)), rw)))))))))"

section \<open>The UDP session relay: shutdown\<close>

text \<open>
  A socket (\<open>net.UDPConn\<close>) with its read deadline; a \<open>*net.UDPConn\<close> is a reference
  into the relay's table of sockets, \<open>nil\<close> being \<open>None\<close>.
\<close>

record UDPConn =
  read_deadline :: "nat option"
  closed :: bool

text \<open>
  The fields of a session that shutdown touches: \<open>state\<close> is the atomic pointer that
  initialization and shutdown swap.
\<close>

record session =
  state :: "nat option"
  natConn :: "nat option"
  username :: "byte list"

text \<open>What a run of the relay does to the world, in order.\<close>

datatype event =
    EvSetReadDeadline nat nat
  | EvWait string
  | EvLock
  | EvUnlock
  | EvWarn string "64 word"
  | EvClose nat

text \<open>
  The relay. \<open>table\<close> lists the entries of the session map in the order the \<open>range\<close>
  loop visits them; \<open>socks\<close> holds the sockets, \<open>locked\<close> the state of the server's
  lock, \<open>trace\<close> the events so far.
\<close>

record UDPSessionRelay =
  serverName :: string
  listenAddress :: string
  serverConn :: "nat option"
  table :: "(64 word \<times> session) list"
  socks :: "nat \<rightharpoonup> UDPConn"
  locked :: bool
  trace :: "event list"

text \<open>\<open>SetReadDeadline\<close> and \<open>Close\<close> on a socket fail once it is closed.\<close>

definition SetReadDeadline :: "UDPSessionRelay \<Rightarrow> nat \<Rightarrow> nat \<Rightarrow> error option \<times> UDPSessionRelay" where
  "SetReadDeadline s c t =
     (case socks s c of
        None \<Rightarrow> (Some ErrClosed, s)
      | Some u \<Rightarrow>
          if closed u then (Some ErrClosed, s)
          else (None, s\<lparr>socks := (socks s)(c \<mapsto> u\<lparr>read_deadline := Some t\<rparr>),
                        trace := trace s @ [EvSetReadDeadline c t]\<rparr>))"

definition Close :: "UDPSessionRelay \<Rightarrow> nat \<Rightarrow> error option \<times> UDPSessionRelay" where
  "Close s c =
     (case socks s c of
        None \<Rightarrow> (Some ErrClosed, s)
      | Some u \<Rightarrow>
          if closed u then (Some ErrClosed, s)
          else (None, s\<lparr>socks := (socks s)(c \<mapsto> u\<lparr>closed := True\<rparr>),
                        trace := trace s @ [EvClose c]\<rparr>))"

text \<open>
  The loop of \<open>Stop\<close> over the table: swap the listener socket into the entry's
  \<open>state\<close>; when a socket comes out, set its read deadline and log a warning if that
  fails.
\<close>

fun stopSessions ::
  "nat option \<Rightarrow> nat \<Rightarrow> (64 word \<times> session) list \<Rightarrow> UDPSessionRelay \<Rightarrow>
     (64 word \<times> session) list \<times> UDPSessionRelay" where
  "stopSessions sc now [] s = ([], s)"
| "stopSessions sc now ((csid, entry) # rest) s =
     (let natConn = state entry;
          entry = entry\<lparr>state := sc\<rparr>;
          s = (case natConn of
                 None \<Rightarrow> s
               | Some nc \<Rightarrow>
                   (case SetReadDeadline s nc now of
                      (None, s) \<Rightarrow> s
                    | (Some e, s) \<Rightarrow>
                        s\<lparr>trace := trace s @ [EvWarn ''Failed to set read deadline on natConn'' csid]\<rparr>))
      in (case stopSessions sc now rest s of
            (rest, s) \<Rightarrow> ((csid, entry) # rest, s)))"

text \<open>
  \<open>Stop\<close>. \<open>now\<close> is the value of \<open>time.Now()\<close>. The two waits return once the
  other goroutines of the relay have finished; what those have done to the relay by then
  is given by \<open>mwg_Wait\<close> and \<open>wg_Wait\<close>.
\<close>

definition Stop ::
  "nat \<Rightarrow> (UDPSessionRelay \<Rightarrow> UDPSessionRelay) \<Rightarrow> (UDPSessionRelay \<Rightarrow> UDPSessionRelay) \<Rightarrow>
     UDPSessionRelay \<Rightarrow> error option \<times> UDPSessionRelay" where
  "Stop now mwg_Wait wg_Wait s =
     (case serverConn s of
        None \<Rightarrow> (None, s)
      | Some sc \<Rightarrow>
          (case SetReadDeadline s sc now of
             (Some e, s) \<Rightarrow> (Some e, s)
           | (None, s) \<Rightarrow>
               (let s = mwg_Wait (s\<lparr>trace := trace s @ [EvWait ''mwg'']\<rparr>);
                    s = s\<lparr>locked := True, trace := trace s @ [EvLock]\<rparr>;
                    (tbl, s) = stopSessions (serverConn s) now (table s) s;
                    s = s\<lparr>table := tbl\<rparr>;
                    s = s\<lparr>locked := False, trace := trace s @ [EvUnlock]\<rparr>;
                    s = wg_Wait (s\<lparr>trace := trace s @ [EvWait ''wg'']\<rparr>)
                in (case serverConn s of
                      None \<Rightarrow> (Some (panic ''nil pointer dereference''), s)
                    | Some sc \<Rightarrow> Close s sc))))"

section \<open>Facts about reading\<close>

text \<open>
  \<open>io.ReadFull\<close> on the stream: with enough input it is one \<open>Read\<close> that takes the
  bytes asked for; with too little it returns what there is and the stream's error,
  \<open>EOF\<close> after some bytes having become \<open>ErrUnexpectedEOF\<close>.
\<close>

lemma ReadFull_zero: "ReadFull rd 0 = (([], None), rd)"
  by (simp add: ReadFull_def ReadFull_loop.simps)

lemma ReadFull_conn_enough:
  assumes "0 < n" and "n \<le> length (input c)"
  shows "ReadFull (ConnReader c) n =
           ((take n (input c), None),
            ConnReader (c\<lparr>input := drop n (input c), reads := Suc (reads c)\<rparr>))"
proof -
  from assms have ne: "input c \<noteq> []" by auto
  have "ReadFull_loop (ConnReader c) n [] None =
          ReadFull_loop (ConnReader (c\<lparr>input := drop n (input c), reads := Suc (reads c)\<rparr>)) n
            (take n (input c)) None"
    using assms ne by (subst ReadFull_loop.simps) (simp add: conn_Read_def)
  also have "\<dots> = ((take n (input c), None),
                   ConnReader (c\<lparr>input := drop n (input c), reads := Suc (reads c)\<rparr>))"
    using assms by (subst ReadFull_loop.simps) simp
  finally show ?thesis
    using assms by (simp add: ReadFull_def)
qed

lemma ReadFull_conn_short:
  assumes "length (input c) < n"
  shows "ReadFull (ConnReader c) n =
           ((input c,
             Some (if input c \<noteq> [] \<and> rd_err c = EOF then ErrUnexpectedEOF else rd_err c)),
            ConnReader (c\<lparr>input := [],
               reads := (if input c = [] then Suc (reads c) else Suc (Suc (reads c)))\<rparr>))"
proof (cases "input c = []")
  case True
  have "ReadFull_loop (ConnReader c) n [] None =
          ReadFull_loop (ConnReader (c\<lparr>reads := Suc (reads c)\<rparr>)) n [] (Some (rd_err c))"
    using assms True by (subst ReadFull_loop.simps) (simp add: conn_Read_def)
  also have "\<dots> = (([], Some (rd_err c)), ConnReader (c\<lparr>reads := Suc (reads c)\<rparr>))"
    by (subst ReadFull_loop.simps) simp
  finally show ?thesis
    using assms True by (simp add: ReadFull_def)
next
  case False
  let ?c1 = "c\<lparr>input := [], reads := Suc (reads c)\<rparr>"
  let ?c2 = "c\<lparr>input := [], reads := Suc (Suc (reads c))\<rparr>"
  have "ReadFull_loop (ConnReader c) n [] None = ReadFull_loop (ConnReader ?c1) n (input c) None"
    using assms False by (subst ReadFull_loop.simps) (simp add: conn_Read_def)
  also have "\<dots> = ReadFull_loop (ConnReader ?c2) n (input c) (Some (rd_err c))"
    using assms False by (subst ReadFull_loop.simps) (simp add: conn_Read_def)
  also have "\<dots> = ((input c, Some (rd_err c)), ConnReader ?c2)"
    by (subst ReadFull_loop.simps) simp
  finally show ?thesis
    using assms False by (auto simp add: ReadFull_def)
qed

text \<open>
  \<open>io.ReadFull\<close> on a prefixed reader: a prefix that is long enough serves the whole
  read, and a reader whose prefix is empty reads as the underlying reader does.
\<close>

lemma ReadFull_prefix_enough:
  assumes "0 < n" and "n \<le> length pre"
  shows "ReadFull (prefixedReader pre rd) n = ((take n pre, None), prefixedReader (drop n pre) rd)"
proof -
  from assms have ne: "pre \<noteq> []" by auto
  have "ReadFull_loop (prefixedReader pre rd) n [] None =
          ReadFull_loop (prefixedReader (drop n pre) rd) n (take n pre) None"
    using assms ne by (subst ReadFull_loop.simps) (simp add: Let_def min_def)
  also have "\<dots> = ((take n pre, None), prefixedReader (drop n pre) rd)"
    using assms by (subst ReadFull_loop.simps) simp
  finally show ?thesis
    using assms by (simp add: ReadFull_def)
qed

lemma ReadFull_loop_prefix_empty:
  "ReadFull_loop (prefixedReader [] rd) len got err =
     (case ReadFull_loop rd len got err of (res, rd') \<Rightarrow> (res, prefixedReader [] rd'))"
proof (induction rd len got err rule: ReadFull_loop.induct)
  case (1 rd len got err)
  show ?case
  proof (cases "length got < len \<and> err = None")
    case True
    obtain data err' rd' where rd: "Read rd (len - length got) = ((data, err'), rd')"
      by (metis prod.exhaust)
    have "ReadFull_loop (prefixedReader [] rd) len got err =
            ReadFull_loop (prefixedReader [] rd') len (got @ data) err'"
      using True rd by (subst ReadFull_loop.simps) simp
    also have "\<dots> = (case ReadFull_loop rd' len (got @ data) err' of
                       (res, rd'') \<Rightarrow> (res, prefixedReader [] rd''))"
      using "1.IH" [OF True rd [symmetric] refl] .
    also have "ReadFull_loop rd' len (got @ data) err' = ReadFull_loop rd len got err"
      using True rd by (subst (2) ReadFull_loop.simps) simp
    finally show ?thesis .
  next
    case False
    then show ?thesis
      by (subst (1 2) ReadFull_loop.simps) auto
  qed
qed

lemma ReadFull_prefix_empty:
  "ReadFull (prefixedReader [] rd) n =
     (case ReadFull rd n of (res, rd') \<Rightarrow> (res, prefixedReader [] rd'))"
  by (simp add: ReadFull_def ReadFull_loop_prefix_empty split: prod.splits)

section \<open>Facts about the scratch buffer\<close>

lemma copy_into_start: "copy_into b 0 d = d @ drop (length d) b"
  by (simp add: copy_into_def)

lemma copy_into_append:
  "length xs = lo \<Longrightarrow> copy_into (xs @ ys) lo d = xs @ d @ drop (length d) ys"
  by (simp add: copy_into_def)

lemma slice_append_mid:
  "length xs = lo \<Longrightarrow> hi = lo + length ys \<Longrightarrow> slice (xs @ ys @ zs) lo hi = ys"
  by (simp add: slice_def)

lemma slice_start: "slice (xs @ ys) 0 (length xs) = xs"
  by (simp add: slice_def)

lemma copy_into_nth_before: "i < lo \<Longrightarrow> lo \<le> length bb \<Longrightarrow> copy_into bb lo d ! i = bb ! i"
  by (simp add: copy_into_def nth_append)

lemma copy_into_take_before: "lo \<le> length bb \<Longrightarrow> take lo (copy_into bb lo d) = take lo bb"
  by (simp add: copy_into_def)

lemma IndexByte_first:
  "i < length xs \<Longrightarrow> xs ! i = c \<Longrightarrow> (\<forall>j<i. xs ! j \<noteq> c) \<Longrightarrow> IndexByte xs c = int i"
proof (induction xs arbitrary: i)
  case Nil
  then show ?case by simp
next
  case (Cons x xs)
  show ?case
  proof (cases i)
    case 0
    with Cons.prems show ?thesis by simp
  next
    case (Suc k)
    with Cons.prems have "x \<noteq> c" by auto
    moreover from Suc Cons.prems have "IndexByte xs c = int k"
      by (intro Cons.IH) auto
    ultimately show ?thesis using Suc by (simp add: Let_def)
  qed
qed

lemma unat_byte_of_nat: "n \<le> 255 \<Longrightarrow> unat (of_nat n :: byte) = n"
  by (simp add: unat_of_nat)

section \<open>The prefixed reader never mixes its two sources\<close>

text \<open>
  Claim C8. A \<open>Read\<close> of \<open>k\<close> bytes on a prefixed reader whose prefix is not empty
  returns the first \<open>min k (length prefix)\<close> bytes of the prefix and no error, drops them
  from the prefix, and leaves the underlying reader as it was: the underlying reader is
  not called. Only with an empty prefix does the call go to the underlying reader, and
  then the result is that reader's result alone. So no call returns bytes of both.
\<close>

theorem prefixedReader_Read_prefix_first:
  "(pre \<noteq> [] \<longrightarrow>
      Read (prefixedReader pre rd) k =
        ((take (min k (length pre)) pre, None),
         prefixedReader (drop (min k (length pre)) pre) rd)) \<and>
   (pre = [] \<longrightarrow>
      Read (prefixedReader pre rd) k =
        (case Read rd k of (res, rd') \<Rightarrow> (res, prefixedReader [] rd')))"
  by (simp add: Let_def)

theorem prefixedReader_Read_prefix_first_witness:
  "Read (prefixedReader [1, 2, 3]
          (ConnReader \<lparr>input = [9, 8], rd_err = EOF, wr_err = None, sent = [], reads = 0,
                       writes = [], local_addr = None\<rparr>)) 5 =
     (([1, 2, 3], None),
      prefixedReader []
          (ConnReader \<lparr>input = [9, 8], rd_err = EOF, wr_err = None, sent = [], reads = 0,
                       writes = [], local_addr = None\<rparr>)) \<and>
   Read (prefixedReader []
          (ConnReader \<lparr>input = [9, 8], rd_err = EOF, wr_err = None, sent = [], reads = 0,
                       writes = [], local_addr = None\<rparr>)) 5 =
     (([9, 8], None),
      prefixedReader []
          (ConnReader \<lparr>input = [], rd_err = EOF, wr_err = None, sent = [], reads = 1,
                       writes = [], local_addr = None\<rparr>))"
  using prefixedReader_Read_prefix_first [of "[1, 2, 3]"
          "ConnReader \<lparr>input = [9, 8], rd_err = EOF, wr_err = None, sent = [], reads = 0,
                       writes = [], local_addr = None\<rparr>" 5]
        prefixedReader_Read_prefix_first [of "[]"
          "ConnReader \<lparr>input = [9, 8], rd_err = EOF, wr_err = None, sent = [], reads = 0,
                       writes = [], local_addr = None\<rparr>" 5]
  by (simp add: conn_Read_def)

section \<open>Method selection: the boundaries of \<open>NMETHODS\<close>\<close>

text \<open>When a method was found, the reply is the version byte and the method.\<close>

lemma selectionReply_found:
  "2 \<le> length b \<Longrightarrow> b ! 0 = v \<Longrightarrow> i \<noteq> - 1 \<Longrightarrow>
   selectionReply rw b i method =
     (wr_err rw,
      rw\<lparr>sent := (if wr_err rw = None then sent rw @ [v, method] else sent rw),
         writes := writes rw @ [[v, method]]\<rparr>)"
  apply (cases b; simp)
  subgoal for b0 bs
    by (cases bs; auto simp add: selectionReply_def slice_def conn_Write_def Let_def numeral_2_eq_2 split: option.splits)
  done

text \<open>
  Claim C6. For a method selection message with \<open>NMETHODS = 255\<close> whose 255 method
  bytes hold the acceptable method at position 254 and nowhere before, the server reads
  the 254 remaining method bytes (two reads in all, the message consumed and nothing
  more), finds the method, and writes the reply \<open>{5, method}\<close>. The result is the
  result of that write, so there is no error unless the stream's \<open>Write\<close> itself fails.
\<close>

theorem method_at_last_position:
  assumes b: "257 \<le> length b"
    and len: "length ms = 255"
    and last: "ms ! 254 = method"
    and only: "\<forall>i<254. ms ! i \<noteq> method"
    and inp: "input rw = [5, 255] @ ms @ rest"
  shows "serverHandleMethodSelection rw b method =
           (wr_err rw,
            rw\<lparr>input := rest, reads := reads rw + 2,
               sent := (if wr_err rw = None then sent rw @ [5, method] else sent rw),
               writes := writes rw @ [[5, method]]\<rparr>)"
proof -
  from len obtain m0 ms' where ms: "ms = m0 # ms'" and len': "length ms' = 254"
    by (cases ms) auto
  let ?rw1 = "rw\<lparr>input := ms' @ rest, reads := Suc (reads rw)\<rparr>"
  let ?rw2 = "rw\<lparr>input := rest, reads := Suc (Suc (reads rw))\<rparr>"
  have r1: "ReadFull (ConnReader rw) 3 = (([5, 255, m0], None), ConnReader ?rw1)"
    using ReadFull_conn_enough [of 3 rw] inp ms by simp
  have r2: "ReadFull (ConnReader ?rw1) 254 = ((ms', None), ConnReader ?rw2)"
    using ReadFull_conn_enough [of 254 ?rw1] len' by simp
  let ?b1 = "copy_into b 0 [5, 255, m0]"
  let ?b2 = "copy_into ?b1 3 ms'"
  have b1: "?b1 = [5, 255, m0] @ drop 3 b"
    by (simp add: copy_into_start numeral_3_eq_3)
  have "copy_into ([5, 255, m0] @ drop 3 b) 3 ms' =
          [5, 255, m0] @ ms' @ drop (length ms') (drop 3 b)"
    by (rule copy_into_append) simp
  then have b2: "?b2 = [5, 255] @ ms @ drop 257 b"
    unfolding b1 using len' ms by simp
  have sl: "slice ?b2 2 257 = ms"
    unfolding b2 using len by (intro slice_append_mid) simp_all
  have idx: "IndexByte ms method = 254"
    using IndexByte_first [of 254 ms "method"] len last only by simp
  have b2len: "2 \<le> length ?b2" "?b2 ! 0 = 5"
    unfolding b2 by simp_all
  have "serverHandleMethodSelection rw b method = selectionReply ?rw2 ?b2 254 method"
    using b r1 r2 sl idx
    by (simp add: serverHandleMethodSelection_def b1 Let_def)
  also have "\<dots> = (wr_err ?rw2,
      ?rw2\<lparr>sent := (if wr_err ?rw2 = None then sent ?rw2 @ [5, method] else sent ?rw2),
         writes := writes ?rw2 @ [[5, method]]\<rparr>)"
    by (rule selectionReply_found [OF b2len]) simp
  finally show ?thesis by simp
qed

text \<open>The message with 254 methods \<open>1\<close> and then the method \<open>2\<close>, followed by two more bytes.\<close>

theorem method_at_last_position_witness:
  "serverHandleMethodSelection
     \<lparr>input = [5, 255] @ (replicate 254 1 @ [2]) @ [1, 4], rd_err = EOF, wr_err = None,
      sent = [], reads = 0, writes = [], local_addr = None\<rparr> (replicate 262 0) 2 =
     (None,
      \<lparr>input = [1, 4], rd_err = EOF, wr_err = None, sent = [5, 2], reads = 2,
       writes = [[5, 2]], local_addr = None\<rparr>)"
proof -
  let ?ms = "replicate 254 1 @ [2 :: byte]"
  let ?rw = "\<lparr>input = [5, 255] @ ?ms @ [1, 4], rd_err = EOF, wr_err = None,
      sent = [], reads = 0, writes = [], local_addr = None\<rparr>"
  have h1: "257 \<le> length (replicate 262 (0 :: byte))" by simp
  have h2: "length ?ms = 255" by simp
  have h3: "?ms ! 254 = 2" by (simp add: nth_append)
  have h4: "\<forall>i<254. ?ms ! i \<noteq> 2" by (simp add: nth_append)
  have h5: "input ?rw = [5, 255] @ ?ms @ [1, 4]" by simp
  from method_at_last_position [OF h1 h2 h3 h4 h5] show ?thesis by simp
qed

text \<open>
  Claim C7, as the code has it. The server reads three bytes before it looks at
  \<open>NMETHODS\<close>. For a stream that starts with the version byte 5 and \<open>NMETHODS = 0\<close>:
  when at least one more byte follows, the result is \<open>errZeroNMETHODS\<close>; when the
  stream ends after the two bytes, the result is the error of the read
  (\<open>ErrUnexpectedEOF\<close> after an orderly close). In both cases nothing is written.
\<close>

theorem zero_nmethods:
  assumes "257 \<le> length b" and "input rw = 5 # 0 # rest"
  shows "serverHandleMethodSelection rw b method =
           (if rest = [] then
              (Some (if rd_err rw = EOF then ErrUnexpectedEOF else rd_err rw),
               rw\<lparr>input := [], reads := reads rw + 2\<rparr>)
            else
              (Some errZeroNMETHODS, rw\<lparr>input := tl rest, reads := reads rw + 1\<rparr>))"
proof (cases rest)
  case Nil
  with assms have "length (input rw) < 3" by simp
  from ReadFull_conn_short [OF this] assms Nil show ?thesis
    by (simp add: serverHandleMethodSelection_def)
next
  case (Cons x xs)
  with assms have "0 < (3::nat)" "3 \<le> length (input rw)" by simp_all
  from ReadFull_conn_enough [OF this] assms Cons show ?thesis
    by (simp add: serverHandleMethodSelection_def copy_into_start)
qed

text \<open>One stream with a third byte, and one that fails after the two bytes.\<close>

theorem zero_nmethods_witness:
  "serverHandleMethodSelection
     \<lparr>input = [5, 0, 2], rd_err = EOF, wr_err = None, sent = [], reads = 0, writes = [],
      local_addr = None\<rparr> (replicate 262 0) 2 =
     (Some errZeroNMETHODS,
      \<lparr>input = [], rd_err = EOF, wr_err = None, sent = [], reads = 1, writes = [],
       local_addr = None\<rparr>) \<and>
   serverHandleMethodSelection
     \<lparr>input = [5, 0], rd_err = IOFailure 7, wr_err = None, sent = [], reads = 0, writes = [],
      local_addr = None\<rparr> (replicate 262 0) 2 =
     (Some (IOFailure 7),
      \<lparr>input = [], rd_err = IOFailure 7, wr_err = None, sent = [], reads = 2, writes = [],
       local_addr = None\<rparr>)"
  using zero_nmethods [of "replicate 262 0"
          "\<lparr>input = [5, 0, 2], rd_err = EOF, wr_err = None, sent = [], reads = 0, writes = [],
            local_addr = None\<rparr>" "[2]" 2]
        zero_nmethods [of "replicate 262 0"
          "\<lparr>input = [5, 0], rd_err = IOFailure 7, wr_err = None, sent = [], reads = 0,
            writes = [], local_addr = None\<rparr>" "[]" 2]
  by simp

text \<open>
  The message \<open>05 00\<close> alone, on a stream the client then closes: the result is
  \<open>ErrUnexpectedEOF\<close>, not \<open>errZeroNMETHODS\<close>.
\<close>

theorem zero_nmethods_short_message:
  "fst (serverHandleMethodSelection
          \<lparr>input = [5, 0], rd_err = EOF, wr_err = None, sent = [], reads = 0, writes = [],
           local_addr = None\<rparr> (replicate 262 0) 0) = Some ErrUnexpectedEOF \<and>
   fst (serverHandleMethodSelection
          \<lparr>input = [5, 0], rd_err = EOF, wr_err = None, sent = [], reads = 0, writes = [],
           local_addr = None\<rparr> (replicate 262 0) 0) \<noteq> Some errZeroNMETHODS"
  using ReadFull_conn_short [of "\<lparr>input = [5, 0], rd_err = EOF, wr_err = None, sent = [],
           reads = 0, writes = [], local_addr = None\<rparr>" 3]
  by (simp add: serverHandleMethodSelection_def)

section \<open>Username/password authentication\<close>

text \<open>
  What the server does with a whole authentication message: \<open>UNAME\<close> is looked up
  before \<open>PASSWD\<close> is read over it, and the password read is compared with the entry's.
\<close>

lemma serverHandleUsernamePassword_message:
  assumes b: "258 \<le> length b"
    and u: "1 \<le> length u" "length u \<le> 255"
    and p: "1 \<le> length p" "length p \<le> 255"
    and inp: "input rw = [1, of_nat (length u)] @ u @ [of_nat (length p)] @ p @ rest"
  shows "serverHandleUsernamePassword rw b tbl =
           (let (userInfo, ok) = lookupUser tbl u;
                status = (if \<not> ok \<or> p \<noteq> Password userInfo then 1 else 0);
                rw' = rw\<lparr>input := rest,
                         reads := reads rw + (if length u = 1 then 2 else 3),
                         sent := (if wr_err rw = None then sent rw @ [1, status] else sent rw),
                         writes := writes rw @ [[1, status]]\<rparr>
            in if status \<noteq> 0 then (([], Some ErrIncorrectUsernamePassword), rw')
               else ((Username userInfo, wr_err rw), rw'))"
proof -
  define L :: byte where "L = of_nat (length u)"
  define P :: byte where "P = of_nat (length p)"
  define w where "w = u @ [P]"
  have unatL: "unat L = length u" and unatP: "unat P = length p"
    using u p by (simp_all add: L_def P_def unat_byte_of_nat)
  have wlen: "length w = Suc (length u)" by (simp add: w_def)
  have inp': "input rw = [1, L] @ w @ p @ rest"
    using inp by (simp add: L_def P_def w_def)
  define n1 :: nat where "n1 = (if length u = 1 then 1 else 2)"
  define d1 where "d1 = [1, L] @ take 2 w"
  define d2 where "d2 = drop 2 w"
  define rw1 where "rw1 = rw\<lparr>input := d2 @ p @ rest, reads := Suc (reads rw)\<rparr>"
  define rw2 where "rw2 = rw\<lparr>input := p @ rest, reads := reads rw + n1\<rparr>"
  define rw3 where "rw3 = rw\<lparr>input := rest, reads := reads rw + n1 + 1\<rparr>"
  have r1: "ReadFull (ConnReader rw) 4 = ((d1, None), ConnReader rw1)"
    using ReadFull_conn_enough [of 4 rw] inp' wlen u
    by (simp add: numeral_eq_Suc d1_def d2_def rw1_def)
  have r2: "(if 1 < length u then ReadFull (ConnReader rw1) (4 + length u - 1 - 4)
             else (([], None), ConnReader rw1)) = ((d2, None), ConnReader rw2)"
  proof (cases "1 < length u")
    case True
    then show ?thesis
      using ReadFull_conn_enough [of "length u - 1" rw1] wlen
      by (simp add: n1_def rw1_def rw2_def d2_def)
  next
    case False
    with u have "length u = 1" by simp
    with wlen show ?thesis by (simp add: n1_def rw1_def rw2_def d2_def)
  qed
  have r3: "ReadFull (ConnReader rw2) (2 + length p - 2) = ((p, None), ConnReader rw3)"
  proof -
    from p have "0 < length p" "length p \<le> length (input rw2)" by (auto simp: rw2_def)
    from ReadFull_conn_enough [OF this] show ?thesis by (simp add: rw2_def rw3_def)
  qed
  define b1 where "b1 = copy_into b 0 d1"
  define b2 where "b2 = copy_into b1 4 d2"
  define b3 where "b3 = copy_into b2 2 p"
  have l4: "length d1 = 4"
    using wlen u by (simp add: d1_def)
  have b1: "b1 = d1 @ drop 4 b"
    by (simp only: b1_def copy_into_start l4)
  have "copy_into (d1 @ drop 4 b) 4 d2 = d1 @ d2 @ drop (length d2) (drop 4 b)"
    by (rule copy_into_append) (rule l4)
  moreover have "drop (length d2) (drop 4 b) = drop (3 + length u) b"
    using wlen u by (simp add: add.commute d2_def)
  ultimately have "b2 = d1 @ d2 @ drop (3 + length u) b"
    by (simp only: b1 b2_def)
  also have "\<dots> = [1, L] @ (take 2 w @ drop 2 w) @ drop (3 + length u) b"
    by (simp add: d1_def d2_def)
  also have "\<dots> = [1, L] @ u @ [P] @ drop (3 + length u) b"
    by (simp only: append_take_drop_id) (simp add: w_def)
  finally have b2: "b2 = [1, L] @ u @ [P] @ drop (3 + length u) b" .
  have b10: "b1 ! 0 = 1" "b1 ! 1 = L"
    unfolding b1 d1_def by simp_all
  have uname: "slice b2 2 (2 + length u) = u"
    unfolding b2 by (rule slice_append_mid) simp_all
  have plen: "b2 ! (2 + length u) = P"
    unfolding b2 by (simp add: nth_append)
  have "copy_into ([1, L] @ (u @ [P] @ drop (3 + length u) b)) 2 p =
          [1, L] @ p @ drop (length p) (u @ [P] @ drop (3 + length u) b)"
    by (intro copy_into_append) simp
  then have b3: "b3 = [1, L] @ p @ drop (length p) (u @ [P] @ drop (3 + length u) b)"
    unfolding b2 b3_def by simp
  have passwd: "slice b3 2 (2 + length p) = p"
    unfolding b3 by (rule slice_append_mid) simp_all
  have reply: "slice (b3[1 := s]) 0 2 = [1, s]" for s
    unfolding b3 by (simp add: slice_def numeral_2_eq_2)
  have unz: "length u \<noteq> 0" "length p \<noteq> 0"
    using u p by auto
  have w3: "conn_Write rw3 [1, s] =
      (wr_err rw, rw\<lparr>input := rest, reads := reads rw + (if length u = 1 then 2 else 3),
              sent := (if wr_err rw = None then sent rw @ [1, s] else sent rw),
              writes := writes rw @ [[1, s]]\<rparr>)" for s
    by (auto simp add: conn_Write_def rw3_def n1_def split: option.splits)
  have step1: "serverHandleUsernamePassword rw b tbl =
     (case lookupUser tbl u of (userInfo, ok) \<Rightarrow>
        (let status = (if \<not> ok \<or> p \<noteq> Password userInfo then 1 else 0 :: byte);
             (err, rw') = conn_Write rw3 [1, status]
         in if status \<noteq> 0 then (([], Some ErrIncorrectUsernamePassword), rw')
            else ((Username userInfo, err), rw')))"
    unfolding serverHandleUsernamePassword_def
    using b
    apply (simp only: r1 Let_def prod.case option.case the_conn.simps b1_def [symmetric] b10 unatL
        unz if_False not_less [symmetric] refl if_True)
    apply (simp only: r2 Let_def prod.case option.case the_conn.simps b2_def [symmetric] uname plen
        unatP unz if_False)
    apply (simp only: r3 Let_def prod.case option.case the_conn.simps b3_def [symmetric] passwd reply)
    apply simp
    done
  show ?thesis
    unfolding step1 by (simp add: w3 Let_def split: prod.splits)
qed

text \<open>
  Claim C4. For an authentication message with version 1, a user name \<open>u\<close> and a
  password \<open>p\<close> of 1 to 255 bytes each, the server calls \<open>Write\<close> once, with the two
  bytes \<open>{1, STATUS}\<close>, where \<open>STATUS\<close> is 0 when \<open>u\<close> is a key of the table and
  \<open>p\<close> equals that entry's password, and 1 otherwise. With a non-zero \<open>STATUS\<close> the
  result is \<open>ErrIncorrectUsernamePassword\<close>, and the stream returned with it already
  holds the response.
\<close>

theorem username_password_status:
  assumes "258 \<le> length b"
    and "1 \<le> length u" and "length u \<le> 255"
    and "1 \<le> length p" and "length p \<le> 255"
    and "input rw = [1, of_nat (length u)] @ u @ [of_nat (length p)] @ p @ rest"
  shows "let matches = (case tbl u of Some ui \<Rightarrow> p = Password ui | None \<Rightarrow> False);
             STATUS = (if matches then 0 else 1);
             R = serverHandleUsernamePassword rw b tbl
         in writes (snd R) = writes rw @ [[1, STATUS]] \<and>
            (wr_err rw = None \<longrightarrow> sent (snd R) = sent rw @ [1, STATUS]) \<and>
            input (snd R) = rest \<and>
            (STATUS \<noteq> 0 \<longrightarrow> fst R = ([], Some ErrIncorrectUsernamePassword)) \<and>
            (STATUS = 0 \<longrightarrow> fst R = (Username (the (tbl u)), wr_err rw))"
  unfolding serverHandleUsernamePassword_message [OF assms]
  by (simp add: lookupUser_def Let_def split: option.splits)

text \<open>The user \<open>uv\<close> with the password \<open>p\<close>, sent once with \<open>p\<close> and once with \<open>q\<close>.\<close>

theorem username_password_status_witness:
  "(let R = serverHandleUsernamePassword
             \<lparr>input = [1, 2, 0x75, 0x76, 1, 0x70], rd_err = EOF, wr_err = None, sent = [],
              reads = 0, writes = [], local_addr = None\<rparr> (replicate 262 0)
             [[0x75, 0x76] \<mapsto> \<lparr>Username = [0x75, 0x76], Password = [0x70]\<rparr>]
    in writes (snd R) = [[1, 0]] \<and> sent (snd R) = [1, 0] \<and> fst R = ([0x75, 0x76], None)) \<and>
   (let R = serverHandleUsernamePassword
             \<lparr>input = [1, 2, 0x75, 0x76, 1, 0x71], rd_err = EOF, wr_err = None, sent = [],
              reads = 0, writes = [], local_addr = None\<rparr> (replicate 262 0)
             [[0x75, 0x76] \<mapsto> \<lparr>Username = [0x75, 0x76], Password = [0x70]\<rparr>]
    in writes (snd R) = [[1, 1]] \<and> sent (snd R) = [1, 1] \<and>
       fst R = ([], Some ErrIncorrectUsernamePassword))"
proof -
  let ?tbl = "[[0x75, 0x76 :: byte] \<mapsto> \<lparr>Username = [0x75, 0x76 :: byte], Password = [0x70 :: byte]\<rparr>]"
  let ?rw = "\<lambda>x. \<lparr>input = [1, 2, 0x75, 0x76, 1, x], rd_err = EOF, wr_err = None, sent = [],
              reads = 0, writes = [], local_addr = None\<rparr>"
  have h: "258 \<le> length (replicate 262 (0 :: byte))"
    "1 \<le> length [0x75, 0x76 :: byte]" "length [0x75, 0x76 :: byte] \<le> 255"
    "1 \<le> length [x :: byte]" "length [x :: byte] \<le> 255"
    "input (?rw x) = [1, of_nat (length [0x75, 0x76 :: byte])] @ [0x75, 0x76] @
        [of_nat (length [x])] @ [x] @ []" for x
    by simp_all
  from username_password_status [OF h, of "0x70" ?tbl]
       username_password_status [OF h, of "0x71" ?tbl]
  show ?thesis by (simp add: Let_def)
qed

text \<open>
  Claim C5. For a user that \<open>Validate\<close> accepts, the message \<open>AppendAuthMsg\<close> builds
  from an empty buffer, fed to the server with a table that maps the user name to the
  user, is answered with \<open>{1, 0}\<close>, and the server returns the user name: reading the
  password over the stored user name loses nothing. The error returned is that of the
  write of the response, \<open>nil\<close> on a stream that accepts it.
\<close>

theorem auth_msg_round_trip:
  assumes "258 \<le> length b"
    and "Validate ui = None"
    and "input rw = AppendAuthMsg ui [] @ rest"
  shows "serverHandleUsernamePassword rw b [Username ui \<mapsto> ui] =
           ((Username ui, wr_err rw),
            rw\<lparr>input := rest,
               reads := reads rw + (if length (Username ui) = 1 then 2 else 3),
               sent := (if wr_err rw = None then sent rw @ [1, 0] else sent rw),
               writes := writes rw @ [[1, 0]]\<rparr>)"
proof -
  from assms(2) have len: "1 \<le> length (Username ui)" "length (Username ui) \<le> 255"
      "1 \<le> length (Password ui)" "length (Password ui) \<le> 255"
    by (auto simp add: Validate_def Suc_le_eq split: if_splits)
  from assms(3) have inp: "input rw = [1, of_nat (length (Username ui))] @ Username ui @
      [of_nat (length (Password ui))] @ Password ui @ rest"
    by (simp add: AppendAuthMsg_def)
  show ?thesis
    unfolding serverHandleUsernamePassword_message [OF assms(1) len inp]
    by (simp add: lookupUser_def Let_def)
qed

text \<open>The user \<open>user\<close> with the password \<open>pass\<close>.\<close>

theorem auth_msg_round_trip_witness:
  "Validate \<lparr>Username = [0x75, 0x73, 0x65, 0x72], Password = [0x70, 0x61, 0x73, 0x73]\<rparr> = None \<and>
   AppendAuthMsg \<lparr>Username = [0x75, 0x73, 0x65, 0x72], Password = [0x70, 0x61, 0x73, 0x73]\<rparr> [] =
     [0x01, 0x04, 0x75, 0x73, 0x65, 0x72, 0x04, 0x70, 0x61, 0x73, 0x73] \<and>
   serverHandleUsernamePassword
     \<lparr>input = [0x01, 0x04, 0x75, 0x73, 0x65, 0x72, 0x04, 0x70, 0x61, 0x73, 0x73],
      rd_err = EOF, wr_err = None, sent = [], reads = 0, writes = [], local_addr = None\<rparr>
     (replicate 262 0)
     [[0x75, 0x73, 0x65, 0x72] \<mapsto>
        \<lparr>Username = [0x75, 0x73, 0x65, 0x72], Password = [0x70, 0x61, 0x73, 0x73]\<rparr>] =
     (([0x75, 0x73, 0x65, 0x72], None),
      \<lparr>input = [], rd_err = EOF, wr_err = None, sent = [1, 0], reads = 3, writes = [[1, 0]],
       local_addr = None\<rparr>)"
proof -
  let ?ui = "\<lparr>Username = [0x75, 0x73, 0x65, 0x72 :: byte], Password = [0x70, 0x61, 0x73, 0x73 :: byte]\<rparr>"
  let ?rw = "\<lparr>input = [0x01, 0x04, 0x75, 0x73, 0x65, 0x72, 0x04, 0x70, 0x61, 0x73, 0x73],
      rd_err = EOF, wr_err = None, sent = [], reads = 0, writes = [], local_addr = None\<rparr>"
  have h1: "258 \<le> length (replicate 262 (0 :: byte))" by simp
  have h2: "Validate ?ui = None" by (simp add: Validate_def)
  have h3: "AppendAuthMsg ?ui [] = [0x01, 0x04, 0x75, 0x73, 0x65, 0x72, 0x04, 0x70, 0x61, 0x73, 0x73]"
    by (simp add: AppendAuthMsg_def)
  have h4: "input ?rw = AppendAuthMsg ?ui [] @ []"
    unfolding h3 by simp
  from auth_msg_round_trip [OF h1 h2 h4] h2 h3 show ?thesis by simp
qed

section \<open>The address codec reads back what is on the wire\<close>

lemma bytes_port_port_bytes:
  "port_bytes p = [hi, lo] \<Longrightarrow> bytes_port hi lo = p"
proof -
  have "push_bit 8 (ucast (ucast (drop_bit 8 p :: 16 word) :: byte)) OR ucast (ucast p :: byte) = p"
    by (rule bit_word_eqI) (auto simp add: bit_simps)
  then show "port_bytes p = [hi, lo] \<Longrightarrow> bytes_port hi lo = p"
    by (auto simp add: port_bytes_def bytes_port_def)
qed

lemma port_bytes_length: "length (port_bytes p) = 2"
  by (simp add: port_bytes_def)

lemma port_bytes_obtain: obtains hi lo where "port_bytes p = [hi, lo]"
  by (simp add: port_bytes_def)

lemma ConnAddrFromSlice_wire_addr:
  assumes "valid_addr a"
  shows "ConnAddrFromSlice (wire_addr a) = Inr (a, length (wire_addr a))"
proof (cases a)
  case AddrZero
  with assms show ?thesis by simp
next
  case (AddrIPPort ip port)
  obtain hi lo where pb: "port_bytes port = [hi, lo]" by (rule port_bytes_obtain)
  note bp = bytes_port_port_bytes [OF pb]
  show ?thesis
  proof (cases ip)
    case (IPv4 a0 a1 a2 a3)
    with AddrIPPort pb bp show ?thesis
      by (simp add: ConnAddrFromSlice_def)
  next
    case (IPv6 bs)
    with AddrIPPort assms have len: "length bs = 16" by simp
    have sl: "slice ([AtypIPv6] @ bs @ [hi, lo]) 1 17 = bs"
      by (rule slice_append_mid) (simp_all add: len)
    have n17: "([AtypIPv6] @ bs @ [hi, lo]) ! 17 = hi" "([AtypIPv6] @ bs @ [hi, lo]) ! 18 = lo"
      using len by (simp_all add: nth_append nth_Cons')
    from IPv6 AddrIPPort pb bp len sl n17 show ?thesis
      by (simp add: ConnAddrFromSlice_def)
  qed
next
  case (AddrDomainPort host port)
  obtain hi lo where pb: "port_bytes port = [hi, lo]" by (rule port_bytes_obtain)
  note bp = bytes_port_port_bytes [OF pb]
  from AddrDomainPort assms have len: "1 \<le> length host" "length host \<le> 255" by simp_all
  define L :: byte where "L = of_nat (length host)"
  have unatL: "unat L = length host"
    using len by (simp add: L_def unat_byte_of_nat)
  have sl: "slice ([AtypDomainName, L] @ host @ [hi, lo]) 2 (2 + length host) = host"
    by (rule slice_append_mid) simp_all
  have nn: "([AtypDomainName, L] @ host @ [hi, lo]) ! (2 + length host) = hi"
     "([AtypDomainName, L] @ host @ [hi, lo]) ! (3 + length host) = lo"
    by (simp_all add: nth_append nth_Cons')
  have w: "wire_addr a = [AtypDomainName, L] @ host @ [hi, lo]"
    using AddrDomainPort pb by (simp add: L_def)
  have l0: "([AtypDomainName, L] @ host @ [hi, lo]) ! 0 = AtypDomainName"
    "([AtypDomainName, L] @ host @ [hi, lo]) ! 1 = L" by simp_all
  have hne: "length host \<noteq> 0" using len by auto
  show ?thesis
    unfolding w ConnAddrFromSlice_def
    using len bp AddrDomainPort hne
    by (simp only: l0 unatL sl nn Let_def) simp
qed

text \<open>The bytes of a well-formed address after its two lead bytes.\<close>

lemma wire_addr_split:
  assumes "valid_addr a"
  shows "\<exists>x y rem. wire_addr a = x # y # rem \<and> rem \<noteq> [] \<and>
           (x = AtypIPv4 \<and> length rem = 5 \<or>
            x = AtypIPv6 \<and> length rem = 17 \<or>
            x = AtypDomainName \<and> y \<noteq> 0 \<and> length rem = unat y + 2)"
proof (cases a)
  case AddrZero
  with assms show ?thesis by simp
next
  case (AddrIPPort ip port)
  show ?thesis
  proof (cases ip)
    case (IPv4 a0 a1 a2 a3)
    with AddrIPPort show ?thesis
      by (simp add: port_bytes_def)
  next
    case (IPv6 bs)
    with AddrIPPort assms have len: "length bs = 16" by simp
    then obtain b0 bs' where bs: "bs = b0 # bs'" and len': "length bs' = 15"
      by (cases bs) auto
    with IPv6 AddrIPPort show ?thesis
      by (simp add: port_bytes_def)
  qed
next
  case (AddrDomainPort host port)
  with assms have len: "1 \<le> length host" "length host \<le> 255" by simp_all
  have unatL: "unat (of_nat (length host) :: byte) = length host"
    using len by (simp add: unat_byte_of_nat)
  then have "(of_nat (length host) :: byte) \<noteq> 0"
    using len by (metis One_nat_def not_one_le_zero unat_0_iff)
  with AddrDomainPort unatL show ?thesis
    by (simp add: port_bytes_def)
qed

lemma AppendFromReader_wire_addr:
  assumes v: "valid_addr a"
    and w: "wire_addr a = x # y # rem"
    and inp: "input c = rem @ rest"
  shows "AppendFromReader b0 (newPrefixedReader [x, y] (ConnReader c)) =
           (Inr (b0 @ wire_addr a),
            prefixedReader [] (ConnReader (c\<lparr>input := rest, reads := Suc (reads c)\<rparr>)))"
proof -
  from wire_addr_split [OF v] w
  have ne: "rem \<noteq> []"
    and ty: "x = AtypIPv4 \<and> length rem = 5 \<or> x = AtypIPv6 \<and> length rem = 17 \<or>
             x = AtypDomainName \<and> y \<noteq> 0 \<and> length rem = unat y + 2"
    by auto
  define n where "n = (if x = AtypIPv4 then IPv4AddrLen - 2
                       else if x = AtypIPv6 then IPv6AddrLen - 2 else unat y + 2)"
  have n: "n = length rem"
    using ty unfolding n_def by auto
  have dz: "\<not> (x = AtypDomainName \<and> y = 0)"
    using ty by auto
  have ty': "x = AtypIPv4 \<or> x = AtypIPv6 \<or> x = AtypDomainName"
    using ty by auto
  have r1: "ReadFull (prefixedReader [x, y] (ConnReader c)) 2 =
              (([x, y], None), prefixedReader [] (ConnReader c))"
    using ReadFull_prefix_enough [of 2 "[x, y]" "ConnReader c"] by simp
  have "0 < n" "n \<le> length (input c)"
    using n ne inp by simp_all
  from ReadFull_conn_enough [OF this]
  have r2: "ReadFull (prefixedReader [] (ConnReader c)) n =
              ((rem, None),
               prefixedReader [] (ConnReader (c\<lparr>input := rest, reads := Suc (reads c)\<rparr>)))"
    using n inp by (simp add: ReadFull_prefix_empty)
  have l0: "[x, y] ! 0 = x" "[x, y] ! 1 = y" by simp_all
  show ?thesis
    unfolding AppendFromReader_def newPrefixedReader_def
    using ty' dz
    by (simp only: r1 prod.case option.case Let_def l0 n_def [symmetric] r2 w) auto
qed

section \<open>UDP ASSOCIATE requests\<close>

text \<open>
  A UDP ASSOCIATE request with a well-formed address, on a TCP connection, with UDP
  enabled: the reply is \<open>VER\<close>, \<open>REP = 0\<close>, the \<open>RSV\<close> byte as the request had it,
  and the local endpoint; after a successful write comes one \<open>Read\<close> of one byte.
\<close>

lemma serverHandleRequest_udp_associate:
  assumes b: "262 \<le> length b"
    and v: "valid_addr addr"
    and inp: "input rw = [5, CmdUDPAssociate, rsv] @ wire_addr addr @ rest"
    and la: "local_addr rw = Some lap"
  shows "serverHandleRequest rw b enableTCP True =
           (let reply = AppendAddrFromAddrPort [5, 0, rsv] lap
            in case wr_err rw of
                 Some e \<Rightarrow>
                   ((addr, Some e),
                    rw\<lparr>input := rest, reads := reads rw + 2, writes := writes rw @ [reply]\<rparr>)
               | None \<Rightarrow>
                   ((addr, Some (if rest = [] \<and> rd_err rw \<noteq> EOF then rd_err rw
                                 else ErrUDPAssociateDone)),
                    rw\<lparr>input := drop 1 rest, reads := reads rw + 3,
                       sent := sent rw @ reply, writes := writes rw @ [reply]\<rparr>))"
proof -
  from wire_addr_split [OF v] obtain x y tl2 where w: "wire_addr addr = x # y # tl2"
    by blast
  define sa where "sa = wire_addr addr"
  define d1 where "d1 = [5, CmdUDPAssociate, rsv, x, y]"
  define rw1 where "rw1 = rw\<lparr>input := tl2 @ rest, reads := Suc (reads rw)\<rparr>"
  define rw2 where "rw2 = rw\<lparr>input := rest, reads := reads rw + 2\<rparr>"
  have r1: "ReadFull (ConnReader rw) 5 = ((d1, None), ConnReader rw1)"
    using ReadFull_conn_enough [of 5 rw] inp w
    by (simp add: d1_def rw1_def)
  define b1 where "b1 = copy_into b 0 d1"
  have l5: "length d1 = 5"
    by (simp add: d1_def)
  have b1: "b1 = d1 @ drop 5 b"
    by (simp only: b1_def copy_into_start l5)
  have lb1: "3 \<le> length b1"
    by (simp add: b1 d1_def)
  have b10: "b1 ! 0 = 5"
    by (simp add: b1 d1_def)
  have s33: "slice b1 3 3 = []"
    by (simp add: slice_def)
  have s35: "slice b1 3 5 = [x, y]"
    by (simp add: b1 d1_def slice_def)
  have "input rw1 = tl2 @ rest"
    by (simp add: rw1_def)
  from AppendFromReader_wire_addr [OF v w this, of "[]"]
  have r2: "AppendFromReader [] (newPrefixedReader [x, y] (ConnReader rw1)) =
              (Inr sa, prefixedReader [] (ConnReader rw2))"
    by (simp add: rw1_def rw2_def sa_def)
  have r3: "ConnAddrFromSlice sa = Inr (addr, length sa)"
    unfolding sa_def by (rule ConnAddrFromSlice_wire_addr [OF v])
  define b2 where "b2 = copy_into b1 3 sa"
  have cmd: "b2 ! 1 = CmdUDPAssociate"
    unfolding b2_def using lb1 by (simp add: copy_into_nth_before b1 d1_def)
  have hd3: "slice (b2[1 := 0]) 0 3 = [5, 0, rsv]"
  proof -
    have "take 3 b2 = take 3 b1"
      unfolding b2_def using lb1 by (rule copy_into_take_before)
    also have "\<dots> = [5, CmdUDPAssociate, rsv]"
      by (simp add: b1 d1_def)
    finally have "take 3 b2 = [5, CmdUDPAssociate, rsv]" .
    then have "take 3 (b2[1 := 0]) = [5, 0, rsv]"
      by (simp add: take_update_swap)
    then show ?thesis by (simp add: slice_def)
  qed
  have la2: "local_addr rw2 = Some lap"
    using la by (simp add: rw2_def)
  have nc: "\<not> ((3::byte) = CmdConnect \<and> enableTCP)" by simp
  have lb: "\<not> length b < 3 + MaxAddrLen" using b by simp
  have step: "serverHandleRequest rw b enableTCP True =
      (let reply = AppendAddrFromAddrPort [5, 0, rsv] lap
       in (case conn_Write rw2 reply of
             (Some e, rw) \<Rightarrow> ((addr, Some e), rw)
           | (None, rw) \<Rightarrow>
               (case conn_Read rw 1 of
                  ((d, err), rw) \<Rightarrow>
                    if err \<noteq> None \<and> err \<noteq> Some EOF then ((addr, err), rw)
                    else ((addr, Some ErrUDPAssociateDone), rw))))"
    unfolding serverHandleRequest_def
    apply (simp only: lb if_False r1 prod.case option.case Let_def the_conn.simps
        b1_def [symmetric] b10 s33 s35 refl not_True_eq_False)
    apply (simp only: r2 prod.case sum.case the_conn.simps b2_def [symmetric] r3 cmd nc
        if_False if_True simp_thms la2 option.case hd3)
    done
  show ?thesis
    unfolding step
    by (cases rest)
       (auto simp add: Let_def conn_Write_def conn_Read_def rw2_def split: option.splits)
qed

text \<open>
  Claim C1, as the code has it. After the reply is written, the server makes one
  \<open>Read\<close> of one byte (the third of the call; at most one byte is taken). When that
  read returns a byte or \<open>EOF\<close>, the result is \<open>ErrUDPAssociateDone\<close> with the decoded
  target address; when it returns any other error, the result is that error, with the
  address.
\<close>

theorem udp_associate_done:
  assumes "262 \<le> length b"
    and "valid_addr addr"
    and "input rw = [5, CmdUDPAssociate, rsv] @ wire_addr addr @ rest"
    and "local_addr rw = Some lap"
    and "wr_err rw = None"
  shows "serverHandleRequest rw b enableTCP True =
           ((addr, Some (if rest = [] \<and> rd_err rw \<noteq> EOF then rd_err rw
                         else ErrUDPAssociateDone)),
            rw\<lparr>input := drop 1 rest, reads := reads rw + 3,
               sent := sent rw @ AppendAddrFromAddrPort [5, 0, rsv] lap,
               writes := writes rw @ [AppendAddrFromAddrPort [5, 0, rsv] lap]\<rparr>)"
  unfolding serverHandleRequest_udp_associate [OF assms(1-4)]
  using assms(5) by (simp add: Let_def)

text \<open>A stream the client closes after the request, and one that sends a byte more.\<close>

theorem udp_associate_done_witness:
  "serverHandleRequest
     \<lparr>input = [5, 3, 0, 1, 0, 0, 0, 0, 0, 0], rd_err = EOF, wr_err = None,
      sent = [], reads = 0, writes = [],
      local_addr = Some (AddrPort (IPv4 10 0 0 1) 51820)\<rparr>
     (replicate 262 0) True True =
     ((AddrIPPort (IPv4 0 0 0 0) 0, Some ErrUDPAssociateDone),
      \<lparr>input = [], rd_err = EOF, wr_err = None,
       sent = [5, 0, 0, 1, 10, 0, 0, 1, 0xCA, 0x6C], reads = 3,
       writes = [[5, 0, 0, 1, 10, 0, 0, 1, 0xCA, 0x6C]],
       local_addr = Some (AddrPort (IPv4 10 0 0 1) 51820)\<rparr>) \<and>
   serverHandleRequest
     \<lparr>input = [5, 3, 0, 1, 0, 0, 0, 0, 0, 0, 9], rd_err = IOFailure 104, wr_err = None,
      sent = [], reads = 0, writes = [],
      local_addr = Some (AddrPort (IPv4 10 0 0 1) 51820)\<rparr>
     (replicate 262 0) True True =
     ((AddrIPPort (IPv4 0 0 0 0) 0, Some ErrUDPAssociateDone),
      \<lparr>input = [], rd_err = IOFailure 104, wr_err = None,
       sent = [5, 0, 0, 1, 10, 0, 0, 1, 0xCA, 0x6C], reads = 3,
       writes = [[5, 0, 0, 1, 10, 0, 0, 1, 0xCA, 0x6C]],
       local_addr = Some (AddrPort (IPv4 10 0 0 1) 51820)\<rparr>)"
proof -
  let ?rw = "\<lambda>tail err. \<lparr>input = [5, 3, 0, 1, 0, 0, 0, 0, 0, 0] @ tail, rd_err = err,
      wr_err = None, sent = [], reads = 0, writes = [],
      local_addr = Some (AddrPort (IPv4 10 0 0 1) 51820)\<rparr>"
  have h1: "262 \<le> length (replicate 262 (0 :: byte))" by simp
  have h2: "valid_addr (AddrIPPort (IPv4 0 0 0 0) 0)" by simp
  have h3: "input (?rw tail err) =
      [5, CmdUDPAssociate, 0] @ wire_addr (AddrIPPort (IPv4 0 0 0 0) 0) @ tail" for tail err
    by (simp add: port_bytes_def)
  have h4: "local_addr (?rw tail err) = Some (AddrPort (IPv4 10 0 0 1) 51820)" for tail err
    by simp
  have h5: "wr_err (?rw tail err) = None" for tail err by simp
  from udp_associate_done [OF h1 h2 h3 h4 h5, of "[]" EOF True]
       udp_associate_done [OF h1 h2 h3 h4 h5, of "[9]" "IOFailure 104" True]
  show ?thesis by (simp add: port_bytes_def)
qed

text \<open>
  A connection that is reset after the reply: the result is the error of the read, not
  \<open>ErrUDPAssociateDone\<close>.
\<close>

theorem udp_associate_other_read_error:
  "snd (fst (serverHandleRequest
     \<lparr>input = [5, 3, 0, 1, 0, 0, 0, 0, 0, 0], rd_err = IOFailure 104, wr_err = None,
      sent = [], reads = 0, writes = [],
      local_addr = Some (AddrPort (IPv4 10 0 0 1) 51820)\<rparr>
     (replicate 262 0) True True)) = Some (IOFailure 104) \<and>
   snd (fst (serverHandleRequest
     \<lparr>input = [5, 3, 0, 1, 0, 0, 0, 0, 0, 0], rd_err = IOFailure 104, wr_err = None,
      sent = [], reads = 0, writes = [],
      local_addr = Some (AddrPort (IPv4 10 0 0 1) 51820)\<rparr>
     (replicate 262 0) True True)) \<noteq> Some ErrUDPAssociateDone"
proof -
  let ?rw = "\<lparr>input = [5, 3, 0, 1, 0, 0, 0, 0, 0, 0], rd_err = IOFailure 104, wr_err = None,
      sent = [], reads = 0, writes = [],
      local_addr = Some (AddrPort (IPv4 10 0 0 1) 51820)\<rparr>"
  have h1: "262 \<le> length (replicate 262 (0 :: byte))" by simp
  have h2: "valid_addr (AddrIPPort (IPv4 0 0 0 0) 0)" by simp
  have h3: "input ?rw = [5, CmdUDPAssociate, 0] @ wire_addr (AddrIPPort (IPv4 0 0 0 0) 0) @ []"
    by (simp add: port_bytes_def)
  have h4: "local_addr ?rw = Some (AddrPort (IPv4 10 0 0 1) 51820)" by simp
  from serverHandleRequest_udp_associate [OF h1 h2 h3 h4, of True] show ?thesis
    by (simp add: Let_def)
qed

text \<open>
  Claim C3, as the layout of the spec has it. For a UDP ASSOCIATE request (with
  \<open>RSV = 0\<close>) on a TCP connection whose local endpoint is \<open>10.0.0.1:51820\<close>, the reply
  written is the ten bytes \<open>05 00 00 01 0A 00 00 01 CA 6C\<close>: the port 51820 is
  \<open>0xCA6C\<close>.
\<close>

theorem udp_associate_reply_bytes:
  assumes "262 \<le> length b"
    and "valid_addr addr"
    and "input rw = [5, CmdUDPAssociate, 0] @ wire_addr addr @ rest"
    and "local_addr rw = Some (AddrPort (IPv4 10 0 0 1) 51820)"
  shows "writes (snd (serverHandleRequest rw b enableTCP True)) =
           writes rw @ [[0x05, 0x00, 0x00, 0x01, 0x0A, 0x00, 0x00, 0x01, 0xCA, 0x6C]]"
  unfolding serverHandleRequest_udp_associate [OF assms]
  by (simp add: Let_def port_bytes_def split: option.splits)

text \<open>A request for the domain \<open>a\<close>, port 53.\<close>

theorem udp_associate_reply_bytes_witness:
  "writes (snd (serverHandleRequest
     \<lparr>input = [5, 3, 0, 3, 1, 0x61, 0, 53], rd_err = EOF, wr_err = None,
      sent = [], reads = 0, writes = [],
      local_addr = Some (AddrPort (IPv4 10 0 0 1) 51820)\<rparr>
     (replicate 262 0) False True)) =
     [[0x05, 0x00, 0x00, 0x01, 0x0A, 0x00, 0x00, 0x01, 0xCA, 0x6C]]"
proof -
  let ?rw = "\<lparr>input = [5, 3, 0, 3, 1, 0x61, 0, 53], rd_err = EOF, wr_err = None,
      sent = [], reads = 0, writes = [],
      local_addr = Some (AddrPort (IPv4 10 0 0 1) 51820)\<rparr>"
  have h1: "262 \<le> length (replicate 262 (0 :: byte))" by simp
  have h2: "valid_addr (AddrDomainPort [0x61] 53)" by simp
  have h3: "input ?rw = [5, CmdUDPAssociate, 0] @ wire_addr (AddrDomainPort [0x61] 53) @ []"
    by (simp add: port_bytes_def)
  have h4: "local_addr ?rw = Some (AddrPort (IPv4 10 0 0 1) 51820)" by simp
  from udp_associate_reply_bytes [OF h1 h2 h3 h4, of False] show ?thesis
    by simp
qed

text \<open>The reply to a request for \<open>0.0.0.0:0\<close> ends in \<open>CA 6C\<close>, not in \<open>CA 7C\<close>.\<close>

theorem udp_associate_reply_not_ca7c:
  "writes (snd (serverHandleRequest
     \<lparr>input = [5, 3, 0, 1, 0, 0, 0, 0, 0, 0], rd_err = EOF, wr_err = None,
      sent = [], reads = 0, writes = [],
      local_addr = Some (AddrPort (IPv4 10 0 0 1) 51820)\<rparr>
     (replicate 262 0) True True)) =
     [[0x05, 0x00, 0x00, 0x01, 0x0A, 0x00, 0x00, 0x01, 0xCA, 0x6C]] \<and>
   writes (snd (serverHandleRequest
     \<lparr>input = [5, 3, 0, 1, 0, 0, 0, 0, 0, 0], rd_err = EOF, wr_err = None,
      sent = [], reads = 0, writes = [],
      local_addr = Some (AddrPort (IPv4 10 0 0 1) 51820)\<rparr>
     (replicate 262 0) True True)) \<noteq>
     [[0x05, 0x00, 0x00, 0x01, 0x0A, 0x00, 0x00, 0x01, 0xCA, 0x7C]]"
proof -
  let ?rw = "\<lparr>input = [5, 3, 0, 1, 0, 0, 0, 0, 0, 0], rd_err = EOF, wr_err = None,
      sent = [], reads = 0, writes = [],
      local_addr = Some (AddrPort (IPv4 10 0 0 1) 51820)\<rparr>"
  have h1: "262 \<le> length (replicate 262 (0 :: byte))" by simp
  have h2: "valid_addr (AddrIPPort (IPv4 0 0 0 0) 0)" by simp
  have h3: "input ?rw = [5, CmdUDPAssociate, 0] @ wire_addr (AddrIPPort (IPv4 0 0 0 0) 0) @ []"
    by (simp add: port_bytes_def)
  have h4: "local_addr ?rw = Some (AddrPort (IPv4 10 0 0 1) 51820)" by simp
  from serverHandleRequest_udp_associate [OF h1 h2 h3 h4, of True] show ?thesis
    by (simp add: Let_def port_bytes_def)
qed

section \<open>Error kinds: what matches \<open>errors.ErrUnsupported\<close>\<close>

text \<open>
  Claim C9. An error of the engine matches \<open>errors.ErrUnsupported\<close> exactly when it
  stands for a protocol extension the implementation refuses: every
  \<open>UnsupportedVersionError\<close>, \<open>UnsupportedAuthMethodError\<close>, \<open>UnsupportedCommandError\<close>
  and \<open>UnsupportedUsernamePasswordAuthVersionError\<close> matches it, and none of the other
  errors the engine declares does: incorrect credentials, no acceptable method, the three
  zero-length errors, the UDP ASSOCIATE signal, every reply error, and the two length
  errors of \<open>Validate\<close>.
\<close>

theorem unsupported_kind:
  "errors_Is (UnsupportedVersionError v) ErrUnsupported \<and>
   errors_Is (UnsupportedAuthMethodError m) ErrUnsupported \<and>
   errors_Is (UnsupportedCommandError c) ErrUnsupported \<and>
   errors_Is (UnsupportedUsernamePasswordAuthVersionError w) ErrUnsupported \<and>
   \<not> errors_Is ErrIncorrectUsernamePassword ErrUnsupported \<and>
   \<not> errors_Is ErrNoAcceptableAuthMethod ErrUnsupported \<and>
   \<not> errors_Is errZeroNMETHODS ErrUnsupported \<and>
   \<not> errors_Is errZeroULEN ErrUnsupported \<and>
   \<not> errors_Is errZeroPLEN ErrUnsupported \<and>
   \<not> errors_Is ErrUDPAssociateDone ErrUnsupported \<and>
   \<not> errors_Is (ReplyError rep) ErrUnsupported \<and>
   \<not> errors_Is ErrUsernameLengthOutOfRange ErrUnsupported \<and>
   \<not> errors_Is ErrPasswordLengthOutOfRange ErrUnsupported"
  by (simp add: errors_Is_def)

section \<open>Stopping a relay that was never started\<close>

text \<open>
  Claim C10. \<open>Stop\<close> on a relay whose listener socket is \<open>nil\<close> returns \<open>nil\<close> and
  leaves the relay as it was: no deadline is set, no lock taken, nothing waited for or
  closed (the trace of events is unchanged), and the table and every other field keep
  their values.
\<close>

theorem Stop_not_started:
  "serverConn s = None \<Longrightarrow> Stop now mwg_Wait wg_Wait s = (None, s)"
  by (simp add: Stop_def)

theorem Stop_not_started_witness:
  "serverConn \<lparr>serverName = ''ss'', listenAddress = ''[::]:20220'', serverConn = None,
       table = [], socks = Map.empty, locked = False, trace = []\<rparr> = None \<and>
   Stop 5 (\<lambda>s. s) (\<lambda>s. s)
     \<lparr>serverName = ''ss'', listenAddress = ''[::]:20220'', serverConn = None,
       table = [], socks = Map.empty, locked = False, trace = []\<rparr> =
     (None, \<lparr>serverName = ''ss'', listenAddress = ''[::]:20220'', serverConn = None,
       table = [], socks = Map.empty, locked = False, trace = []\<rparr>)"
  using Stop_not_started [of "\<lparr>serverName = ''ss'', listenAddress = ''[::]:20220'', serverConn = None,
       table = [], socks = Map.empty, locked = False, trace = []\<rparr>" 5 "\<lambda>s. s" "\<lambda>s. s"]
  by simp

end
